theory Spec2Isabelle
  imports Complex_Main "HOL-Library.Char_ord" "HOL-Library.List_Lexorder"
    "HOL-Library.Product_Lexorder"
begin

section \<open>Numbers and NumPy reductions\<close>

text \<open>
  The scripts compute on NumPy float64 arrays. A finite float64 value is modelled as the
  real number it denotes, and every arithmetic operation returns the rounding of the
  exact result: the rounding function \<open>rnd\<close> is a parameter of the numeric definitions.
  \<open>exact\<close> (no rounding) gives real arithmetic; \<open>fl64\<close> below is round-to-nearest-even
  to a 53 bit significand. The one non-finite value that the code under study can
  produce from finite data is NaN (the mean of an empty axis), so a computed statistic
  is an \<open>npfloat\<close>.
\<close>

type_synonym rounding = "real \<Rightarrow> real"

definition exact :: rounding where
  "exact x = x"

datatype npfloat = Fin real | NaN

text \<open>The Python exceptions that the modelled functions can raise, one per raise site.\<close>

datatype error =
    ZeroSizeReduction     \<comment> \<open>ValueError: zero-size array to reduction operation\<close>
  | ScaleNegative         \<comment> \<open>ValueError: scale < 0 (numpy.random.normal)\<close>
  | SeedOutOfRange        \<comment> \<open>ValueError: Seed must be between 0 and 2**32 - 1\<close>
  | DirectoryNotExist     \<comment> \<open>ValueError: Directory ... does not exist!\<close>
  | NoConditionSubdirs    \<comment> \<open>ValueError: No condition subdirectories found in ...\<close>
  | NotADirectory         \<comment> \<open>NotADirectoryError from Path.iterdir\<close>
  | ReadCsvFailed         \<comment> \<open>any exception of pandas.read_csv\<close>
  | ColumnMissing         \<comment> \<open>KeyError from df[['ax', 'ay', 'az']]\<close>

text \<open>
  \<open>np.sum\<close> of a one-dimensional array: the accumulator starts at 0 and every addition
  is rounded. (NumPy regroups the additions of arrays of 8 and more elements; the
  grouping changes the result only through rounding.)
\<close>

definition np_sum :: "rounding \<Rightarrow> real list \<Rightarrow> real" where
  "np_sum rnd xs = foldl (\<lambda>s x. rnd (s + x)) 0 xs"

text \<open>\<open>np.mean\<close>: sum divided by the number of elements; NaN (with a warning) when empty.\<close>

definition np_mean :: "rounding \<Rightarrow> real list \<Rightarrow> npfloat" where
  "np_mean rnd xs =
     (if xs = [] then NaN else Fin (rnd (np_sum rnd xs / real (length xs))))"

text \<open>\<open>axis_data**2\<close>: the elementwise square.\<close>

definition np_square :: "rounding \<Rightarrow> real list \<Rightarrow> real list" where
  "np_square rnd xs = map (\<lambda>x. rnd (x * x)) xs"

definition np_sqrt :: "rounding \<Rightarrow> npfloat \<Rightarrow> npfloat" where
  "np_sqrt rnd v = (case v of NaN \<Rightarrow> NaN
                    | Fin x \<Rightarrow> if x < 0 then NaN else Fin (rnd (sqrt x)))"

text \<open>
  \<open>np.std\<close> with its default \<open>ddof=0\<close>: the deviations from the mean are squared and
  summed, the sum is divided by the number of elements and the square root is taken.
\<close>

definition np_std :: "rounding \<Rightarrow> real list \<Rightarrow> npfloat" where
  "np_std rnd xs =
     (case np_mean rnd xs of NaN \<Rightarrow> NaN
      | Fin m \<Rightarrow>
          np_sqrt rnd (Fin (rnd (np_sum rnd (np_square rnd (map (\<lambda>x. rnd (x - m)) xs))
                                 / real (length xs)))))"

text \<open>\<open>np.min\<close> and \<open>np.max\<close> raise ValueError on an array without elements.\<close>

definition np_min :: "real list \<Rightarrow> error + npfloat" where
  "np_min xs = (if xs = [] then Inl ZeroSizeReduction else Inr (Fin (Min (set xs))))"

definition np_max :: "real list \<Rightarrow> error + npfloat" where
  "np_max xs = (if xs = [] then Inl ZeroSizeReduction else Inr (Fin (Max (set xs))))"

definition np_sub :: "rounding \<Rightarrow> npfloat \<Rightarrow> npfloat \<Rightarrow> npfloat" where
  "np_sub rnd a b = (case (a, b) of (Fin x, Fin y) \<Rightarrow> Fin (rnd (x - y)) | _ \<Rightarrow> NaN)"

section \<open>Feature extraction (train\_features.py)\<close>

text \<open>
  A two-dimensional array carries its shape, so that a window without rows still has a
  number of columns: \<open>shape0\<close> is \<open>time_steps\<close>, \<open>shape1\<close> the number of axes.
\<close>

record ndarray2 =
  shape0 :: nat
  shape1 :: nat
  rows :: "real list list"

definition well_shaped :: "ndarray2 \<Rightarrow> bool" where
  "well_shaped a \<longleftrightarrow>
     length (rows a) = shape0 a \<and> list_all (\<lambda>r. length r = shape1 a) (rows a)"

text \<open>\<open>sequence[:, axis_idx]\<close>\<close>

definition column :: "ndarray2 \<Rightarrow> nat \<Rightarrow> real list" where
  "column a i = map (\<lambda>r. r ! i) (rows a)"

text \<open>
  The body of the loop over the axes: the six \<open>features.append\<close> calls in their order.
  An exception of \<open>np.min\<close> or \<open>np.max\<close> leaves the function.
\<close>

definition axis_features :: "rounding \<Rightarrow> real list \<Rightarrow> error + npfloat list" where
  "axis_features rnd axis_data =
     (let mean = np_mean rnd axis_data;
          std = np_std rnd axis_data
      in case np_min axis_data of Inl e \<Rightarrow> Inl e
         | Inr mn \<Rightarrow>
        (case np_max axis_data of Inl e \<Rightarrow> Inl e
         | Inr mx \<Rightarrow>
        (let rms = np_sqrt rnd (np_mean rnd (np_square rnd axis_data))
         in case np_max axis_data of Inl e \<Rightarrow> Inl e
            | Inr mx' \<Rightarrow>
           (case np_min axis_data of Inl e \<Rightarrow> Inl e
            | Inr mn' \<Rightarrow> Inr [mean, std, mn, mx, rms, np_sub rnd mx' mn']))))"

fun extract_loop ::
  "rounding \<Rightarrow> ndarray2 \<Rightarrow> nat list \<Rightarrow> npfloat list \<Rightarrow> error + npfloat list" where
  "extract_loop rnd sequence [] features = Inr features"
| "extract_loop rnd sequence (axis_idx # rest) features =
     (case axis_features rnd (column sequence axis_idx) of
        Inl e \<Rightarrow> Inl e
      | Inr fs \<Rightarrow> extract_loop rnd sequence rest (features @ fs))"

definition extract_features_from_sequence ::
  "rounding \<Rightarrow> ndarray2 \<Rightarrow> error + npfloat list" where
  "extract_features_from_sequence rnd sequence =
     extract_loop rnd sequence [0..<shape1 sequence] []"

section \<open>Binary64 rounding\<close>

text \<open>
  Round to nearest, ties to even, with a significand of 53 bits: a number \<open>x\<close> with
  \<open>2 ^ k \<le> \<bar>x\<bar> < 2 ^ (k + 1)\<close> is rounded to a multiple of \<open>2 ^ (k - 52)\<close>. The
  exponent range is not bounded: overflow and subnormal numbers are outside this model.
\<close>

definition round_half_even :: "real \<Rightarrow> int" where
  "round_half_even x =
     (let f = \<lfloor>x\<rfloor>; d = x - of_int f
      in if d < 1 / 2 then f else if 1 / 2 < d then f + 1
         else if even f then f else f + 1)"

definition fl64 :: rounding where
  "fl64 x =
     (if x = 0 then 0
      else let e = \<lfloor>log 2 \<bar>x\<bar>\<rfloor> - 52
           in of_int (round_half_even (x / 2 powi e)) * 2 powi e)"

section \<open>Signal synthesis (chapter01.py, signal\_visualizer.py)\<close>

text \<open>
  NumPy's global random generator is state that the scripts seed and draw from. Its
  algorithm is not part of the repository: a generator is given by the state that
  \<open>np.random.seed\<close> installs for a seed and by the function drawing one standard normal
  variate from a state.
\<close>

record 'g generator =
  seed_fn :: "int \<Rightarrow> 'g"
  gauss_fn :: "'g \<Rightarrow> real \<times> 'g"

definition np_random_seed :: "'g generator \<Rightarrow> int \<Rightarrow> error + 'g" where
  "np_random_seed gen s =
     (if 0 \<le> s \<and> s < 2 ^ 32 then Inr (seed_fn gen s) else Inl SeedOutOfRange)"

fun gauss_draws :: "'g generator \<Rightarrow> nat \<Rightarrow> 'g \<Rightarrow> real list \<times> 'g" where
  "gauss_draws gen 0 g = ([], g)"
| "gauss_draws gen (Suc n) g =
     (case gauss_fn gen g of (z, g') \<Rightarrow>
        (case gauss_draws gen n g' of (zs, g'') \<Rightarrow> (z # zs, g'')))"

text \<open>
  \<open>np.random.normal(loc, scale, size)\<close>: a negative scale is rejected before anything is
  drawn; otherwise each variate is \<open>loc + scale * z\<close> for a standard normal draw \<open>z\<close>.
\<close>

definition np_random_normal ::
  "'g generator \<Rightarrow> rounding \<Rightarrow> real \<Rightarrow> real \<Rightarrow> nat \<Rightarrow> 'g \<Rightarrow> error + (real list \<times> 'g)" where
  "np_random_normal gen rnd loc scale n g =
     (if scale < 0 then Inl ScaleNegative
      else case gauss_draws gen n g of
             (zs, g') \<Rightarrow> Inr (map (\<lambda>z. rnd (loc + rnd (scale * z))) zs, g'))"

text \<open>\<open>add_noise(signal, noise_level, seed=None)\<close> of signal\_visualizer.py.\<close>

definition add_noise ::
  "'g generator \<Rightarrow> rounding \<Rightarrow> real list \<Rightarrow> real \<Rightarrow> int option \<Rightarrow> 'g
     \<Rightarrow> error + (real list \<times> 'g)" where
  "add_noise gen rnd signal noise_level seed g =
     (case (case seed of None \<Rightarrow> Inr g | Some s \<Rightarrow> np_random_seed gen s) of
        Inl e \<Rightarrow> Inl e
      | Inr g1 \<Rightarrow>
         (case np_random_normal gen rnd 0 noise_level (length signal) g1 of
            Inl e \<Rightarrow> Inl e
          | Inr (noise, g2) \<Rightarrow> Inr (map (\<lambda>(s, n). rnd (s + n)) (zip signal noise), g2)))"

text \<open>
  chapter01.py, the temperature channel:
  \<open>50 + 0.5 * np.sin(time) + np.random.normal(0, 0.2, len(time))\<close>,
  drawn from the global generator in the state \<open>g\<close>.
\<close>

definition temperature ::
  "'g generator \<Rightarrow> rounding \<Rightarrow> real list \<Rightarrow> 'g \<Rightarrow> error + (real list \<times> 'g)" where
  "temperature gen rnd time g =
     (case np_random_normal gen rnd 0 (rnd (2 / 10)) (length time) g of
        Inl e \<Rightarrow> Inl e
      | Inr (noise, g') \<Rightarrow>
          Inr (map (\<lambda>(t, n). rnd (rnd (50 + rnd (rnd (5 / 10) * rnd (sin t))) + n))
                 (zip time noise), g'))"

record synthesis_spec =
  base :: real
  amplitude :: real
  angular_rate :: real
  noise_std :: real
  seed :: int

text \<open>
  Modelled from the spec: the deterministic term of a channel,
  \<open>base + amplitude * sin(angular_rate * t[i])\<close>. The repository has no such function;
  its scripts repeat the expression inline, as \<open>temperature\<close> does, with other constants.
\<close>

definition sinusoid :: "rounding \<Rightarrow> synthesis_spec \<Rightarrow> real list \<Rightarrow> real list" where
  "sinusoid rnd sp timestamps =
     map (\<lambda>t. rnd (base sp + rnd (amplitude sp * rnd (sin (rnd (angular_rate sp * t))))))
       timestamps"

text \<open>
  Modelled from the spec: the repository has no function \<open>synthesize\<close>. Following the
  spec, \<open>value[i] = base + amplitude * sin(angular_rate * t[i]) + noise[i]\<close>, the noise
  being drawn by the source's \<open>add_noise\<close> after it has seeded the generator with the seed
  of the configuration.
\<close>

definition synthesize ::
  "'g generator \<Rightarrow> rounding \<Rightarrow> real list \<Rightarrow> synthesis_spec \<Rightarrow> 'g
     \<Rightarrow> error + (real list \<times> 'g)" where
  "synthesize gen rnd timestamps sp g =
     add_noise gen rnd (sinusoid rnd sp timestamps) (noise_std sp) (Some (seed sp)) g"

text \<open>The value a call returns, without the generator state it leaves behind.\<close>

definition returned :: "error + ('a \<times> 'g) \<Rightarrow> error + 'a" where
  "returned r = (case r of Inl e \<Rightarrow> Inl e | Inr (v, g) \<Rightarrow> Inr v)"

section \<open>Dataset loading (train\_features.py)\<close>

text \<open>
  What \<open>pd.read_csv\<close> makes of a file: an exception, or a table of named numeric
  columns of equal length.
\<close>

record dataframe =
  n_rows :: nat
  columns :: "(string \<times> real list) list"

datatype csv_file = Unreadable | Csv dataframe

definition read_csv :: "csv_file \<Rightarrow> error + dataframe" where
  "read_csv f = (case f of Unreadable \<Rightarrow> Inl ReadCsvFailed | Csv df \<Rightarrow> Inr df)"

text \<open>\<open>df[names].values\<close>: KeyError when a column is missing.\<close>

definition select_values :: "dataframe \<Rightarrow> string list \<Rightarrow> error + ndarray2" where
  "select_values df names =
     (case those (map (map_of (columns df)) names) of
        None \<Rightarrow> Inl ColumnMissing
      | Some cs \<Rightarrow>
          Inr \<lparr>shape0 = n_rows df, shape1 = length names,
               rows = map (\<lambda>j. map (\<lambda>c. c ! j) cs) [0..<n_rows df]\<rparr>)"

text \<open>
  The directory tree, two levels deep. A listing is in the order in which the operating
  system enumerates the directory, which is arbitrary; names within one directory are
  distinct.
\<close>

datatype entry = Other | Subdir "(string \<times> csv_file) list"

datatype path_target = Missing | NotDir | Directory "(string \<times> entry) list"

definition condition_mapping :: "(string \<times> int) list" where
  "condition_mapping =
     [(''normal'', 0), (''bearing'', 1), (''misalignment'', 2), (''imbalance'', 3)]"

text \<open>\<open>glob("*.csv")\<close>: the names that end in \<open>.csv\<close>.\<close>

definition csv_name :: "string \<Rightarrow> bool" where
  "csv_name n \<longleftrightarrow> 4 \<le> length n \<and> drop (length n - 4) n = ''.csv''"

datatype log_line = WarnUnknown string | Extracted nat string

fun subdirs :: "(string \<times> entry) list \<Rightarrow> (string \<times> (string \<times> csv_file) list) list" where
  "subdirs [] = []"
| "subdirs ((n, Subdir fs) # rest) = (n, fs) # subdirs rest"
| "subdirs ((n, Other) # rest) = subdirs rest"

text \<open>The inner loop, over the sorted files of one class directory.\<close>

fun load_files ::
  "rounding \<Rightarrow> (string \<times> csv_file) list \<Rightarrow> int \<Rightarrow> npfloat list list \<Rightarrow> int list
     \<Rightarrow> error + (npfloat list list \<times> int list)" where
  "load_files rnd [] label X_list y_list = Inr (X_list, y_list)"
| "load_files rnd ((filepath, f) # rest) label X_list y_list =
     (case read_csv f of Inl e \<Rightarrow> Inl e
      | Inr df \<Rightarrow>
     (case select_values df [''ax'', ''ay'', ''az''] of Inl e \<Rightarrow> Inl e
      | Inr sequence \<Rightarrow>
     (case extract_features_from_sequence rnd sequence of Inl e \<Rightarrow> Inl e
      | Inr features \<Rightarrow>
          load_files rnd rest label (X_list @ [features]) (y_list @ [label]))))"

text \<open>The outer loop, over the sorted class directories.\<close>

fun load_dirs ::
  "rounding \<Rightarrow> (string \<times> (string \<times> csv_file) list) list \<Rightarrow> npfloat list list \<Rightarrow> int list
     \<Rightarrow> log_line list \<Rightarrow> error + (npfloat list list \<times> int list \<times> log_line list)" where
  "load_dirs rnd [] X_list y_list printed = Inr (X_list, y_list, printed)"
| "load_dirs rnd ((condition, files) # rest) X_list y_list printed =
     (case map_of condition_mapping condition of
        None \<Rightarrow> load_dirs rnd rest X_list y_list (printed @ [WarnUnknown condition])
      | Some label \<Rightarrow>
         (let csv_files = sort_key fst (filter (\<lambda>p. csv_name (fst p)) files)
          in case load_files rnd csv_files label X_list y_list of
               Inl e \<Rightarrow> Inl e
             | Inr (X_list', y_list') \<Rightarrow>
                 load_dirs rnd rest X_list' y_list'
                   (printed @ [Extracted (length csv_files) condition])))"

record loaded =
  X :: "npfloat list list"
  y :: "int list"
  condition_names :: "string list"
  printed :: "log_line list"

definition load_csv_data_with_features :: "rounding \<Rightarrow> path_target \<Rightarrow> error + loaded" where
  "load_csv_data_with_features rnd directory =
     (case directory of
        Missing \<Rightarrow> Inl DirectoryNotExist
      | NotDir \<Rightarrow> Inl NotADirectory
      | Directory listing \<Rightarrow>
         (let condition_dirs = subdirs listing
          in if condition_dirs = [] then Inl NoConditionSubdirs
             else case load_dirs rnd (sort_key fst condition_dirs) [] [] [] of
                    Inl e \<Rightarrow> Inl e
                  | Inr (X_list, y_list, out) \<Rightarrow>
                      Inr \<lparr>X = X_list, y = y_list,
                           condition_names = sort (map fst condition_mapping),
                           printed = out\<rparr>))"

section \<open>Reference formulas\<close>

text \<open>The six statistics of one non-empty axis, as real numbers.\<close>

definition stat_mean :: "rounding \<Rightarrow> real list \<Rightarrow> real" where
  "stat_mean rnd xs = rnd (np_sum rnd xs / real (length xs))"

definition stat_std :: "rounding \<Rightarrow> real list \<Rightarrow> real" where
  "stat_std rnd xs =
     rnd (sqrt (rnd (np_sum rnd (np_square rnd (map (\<lambda>x. rnd (x - stat_mean rnd xs)) xs))
                     / real (length xs))))"

definition stat_rms :: "rounding \<Rightarrow> real list \<Rightarrow> real" where
  "stat_rms rnd xs = rnd (sqrt (rnd (np_sum rnd (np_square rnd xs) / real (length xs))))"

definition six_stats :: "rounding \<Rightarrow> real list \<Rightarrow> npfloat list" where
  "six_stats rnd xs =
     [Fin (stat_mean rnd xs), Fin (stat_std rnd xs), Fin (Min (set xs)), Fin (Max (set xs)),
      Fin (stat_rms rnd xs), Fin (rnd (Max (set xs) - Min (set xs)))]"

definition nonneg_preserving :: "rounding \<Rightarrow> bool" where
  "nonneg_preserving rnd \<longleftrightarrow> (\<forall>x. 0 \<le> x \<longrightarrow> 0 \<le> rnd x)"





text \<open>
  Two listings of one directory: the same named entries, enumerated in any order.
  Two listings of the tree: the same names at the top, and under equal names either two
  non-directories or two listings of one class directory.
\<close>

definition same_listing :: "(string \<times> 'a) list \<Rightarrow> (string \<times> 'a) list \<Rightarrow> bool" where
  "same_listing l1 l2 \<longleftrightarrow>
     distinct (map fst l1) \<and> distinct (map fst l2) \<and> set l1 = set l2"

fun same_entry :: "entry \<Rightarrow> entry \<Rightarrow> bool" where
  "same_entry Other Other = True"
| "same_entry (Subdir f1) (Subdir f2) = same_listing f1 f2"
| "same_entry _ _ = False"

definition same_tree :: "(string \<times> entry) list \<Rightarrow> (string \<times> entry) list \<Rightarrow> bool" where
  "same_tree l1 l2 \<longleftrightarrow>
     distinct (map fst l1) \<and> distinct (map fst l2) \<and> set (map fst l1) = set (map fst l2)
     \<and> list_all (\<lambda>p1. list_all (\<lambda>p2. fst p1 = fst p2 \<longrightarrow> same_entry (snd p1) (snd p2)) l2) l1"

text \<open>The files of one class directory that the loader reads, in the order it reads them.\<close>

definition sorted_csv_files :: "(string \<times> csv_file) list \<Rightarrow> (string \<times> csv_file) list" where
  "sorted_csv_files files = sort_key fst (filter (\<lambda>p. csv_name (fst p)) files)"

definition canon ::
  "string \<times> (string \<times> csv_file) list \<Rightarrow> string \<times> (string \<times> csv_file) list" where
  "canon d = (fst d, sorted_csv_files (snd d))"

text \<open>What the body of the inner loop computes from one file.\<close>

definition file_features :: "rounding \<Rightarrow> csv_file \<Rightarrow> error + npfloat list" where
  "file_features rnd f =
     (case read_csv f of Inl e \<Rightarrow> Inl e
      | Inr df \<Rightarrow>
     (case select_values df [''ax'', ''ay'', ''az''] of Inl e \<Rightarrow> Inl e
      | Inr sequence \<Rightarrow> extract_features_from_sequence rnd sequence))"

text \<open>
  The sequence of files that the two loops visit: the class directories by name, the
  directories of unknown classes left out, and in each directory the csv files by name.
\<close>

record visit =
  class_dir :: string
  class_label :: int
  file_name :: string
  content :: csv_file

definition visits_of_dir :: "string \<times> (string \<times> csv_file) list \<Rightarrow> visit list" where
  "visits_of_dir d =
     (case map_of condition_mapping (fst d) of
        None \<Rightarrow> []
      | Some label \<Rightarrow>
          map (\<lambda>p. \<lparr>class_dir = fst d, class_label = label, file_name = fst p, content = snd p\<rparr>)
            (sorted_csv_files (snd d)))"

definition visited :: "(string \<times> entry) list \<Rightarrow> visit list" where
  "visited listing = concat (map visits_of_dir (sort_key fst (subdirs listing)))"

definition visit_key :: "visit \<Rightarrow> string \<times> string" where
  "visit_key v = (class_dir v, file_name v)"

text \<open>
  A small tree for the examples: two samples of class normal, one of class bearing, an
  empty directory of the known class misalignment, a directory of an unknown class and
  a stray file; and the same tree enumerated in another order.
\<close>

definition frame_a :: dataframe where
  "frame_a = \<lparr>n_rows = 1, columns = [(''ax'', [1]), (''ay'', [0]), (''az'', [2])]\<rparr>"

definition frame_b :: dataframe where
  "frame_b = \<lparr>n_rows = 1, columns = [(''az'', [0]), (''ay'', [1]), (''ax'', [2])]\<rparr>"

definition features_a :: "npfloat list" where
  "features_a = [Fin 1, Fin 0, Fin 1, Fin 1, Fin 1, Fin 0,
                 Fin 0, Fin 0, Fin 0, Fin 0, Fin 0, Fin 0,
                 Fin 2, Fin 0, Fin 2, Fin 2, Fin 2, Fin 0]"

definition features_b :: "npfloat list" where
  "features_b = [Fin 2, Fin 0, Fin 2, Fin 2, Fin 2, Fin 0,
                 Fin 1, Fin 0, Fin 1, Fin 1, Fin 1, Fin 0,
                 Fin 0, Fin 0, Fin 0, Fin 0, Fin 0, Fin 0]"

definition example_tree :: "(string \<times> entry) list" where
  "example_tree =
     [(''normal'', Subdir [(''b.csv'', Csv frame_b), (''notes.txt'', Unreadable),
                           (''a.csv'', Csv frame_a)]),
      (''unknown_condition'', Subdir [(''u.csv'', Csv frame_a)]),
      (''misalignment'', Subdir []),
      (''README'', Other),
      (''bearing'', Subdir [(''c.csv'', Csv frame_a)])]"

definition example_tree_relisted :: "(string \<times> entry) list" where
  "example_tree_relisted =
     [(''bearing'', Subdir [(''c.csv'', Csv frame_a)]),
      (''README'', Other),
      (''normal'', Subdir [(''a.csv'', Csv frame_a), (''b.csv'', Csv frame_b),
                           (''notes.txt'', Unreadable)]),
      (''misalignment'', Subdir []),
      (''unknown_condition'', Subdir [(''u.csv'', Csv frame_a)])]"

definition example_loaded :: loaded where
  "example_loaded =
     \<lparr>X = [features_a, features_a, features_b], y = [1, 0, 0],
      condition_names = [''bearing'', ''imbalance'', ''misalignment'', ''normal''],
      printed = [Extracted 1 ''bearing'', Extracted 0 ''misalignment'',
                 Extracted 2 ''normal'', WarnUnknown ''unknown_condition'']\<rparr>"

section \<open>Properties of the feature extractor\<close>

lemma nonneg_preservingD: "nonneg_preserving rnd \<Longrightarrow> 0 \<le> x \<Longrightarrow> 0 \<le> rnd x"
  by (simp add: nonneg_preserving_def)

lemma np_sum_fold_nonneg:
  assumes "nonneg_preserving rnd"
  shows "0 \<le> s \<Longrightarrow> \<forall>x\<in>set xs. 0 \<le> x \<Longrightarrow> 0 \<le> foldl (\<lambda>s x. rnd (s + x)) s xs"
proof (induction xs arbitrary: s)
  case Nil
  then show ?case by simp
next
  case (Cons a xs)
  have "0 \<le> rnd (s + a)"
    using Cons.prems by (intro nonneg_preservingD [OF assms]) simp
  then show ?case using Cons by simp
qed

lemma np_sum_nonneg:
  "nonneg_preserving rnd \<Longrightarrow> \<forall>x\<in>set xs. 0 \<le> x \<Longrightarrow> 0 \<le> np_sum rnd xs"
  unfolding np_sum_def by (rule np_sum_fold_nonneg) simp_all

lemma np_square_nonneg:
  "nonneg_preserving rnd \<Longrightarrow> \<forall>x\<in>set (np_square rnd xs). 0 \<le> x"
  by (simp add: np_square_def nonneg_preservingD)

lemma mean_square_nonneg:
  assumes "nonneg_preserving rnd"
  shows "0 \<le> rnd (np_sum rnd (np_square rnd xs) / real (length ys))"
proof -
  have "0 \<le> np_sum rnd (np_square rnd xs)"
    by (rule np_sum_nonneg [OF assms np_square_nonneg [OF assms]])
  then show ?thesis by (intro nonneg_preservingD [OF assms]) simp
qed

lemma np_mean_nonempty: "xs \<noteq> [] \<Longrightarrow> np_mean rnd xs = Fin (stat_mean rnd xs)"
  by (simp add: np_mean_def stat_mean_def)

lemma np_std_nonempty:
  "nonneg_preserving rnd \<Longrightarrow> xs \<noteq> [] \<Longrightarrow> np_std rnd xs = Fin (stat_std rnd xs)"
  using mean_square_nonneg [of rnd "map (\<lambda>x. rnd (x - stat_mean rnd xs)) xs" xs]
  by (simp add: np_std_def np_mean_nonempty np_sqrt_def stat_std_def)

lemma np_rms_nonempty:
  "nonneg_preserving rnd \<Longrightarrow> xs \<noteq> []
     \<Longrightarrow> np_sqrt rnd (np_mean rnd (np_square rnd xs)) = Fin (stat_rms rnd xs)"
  using mean_square_nonneg [of rnd xs xs]
  by (simp add: np_mean_def np_sqrt_def stat_rms_def np_square_def)

lemma axis_features_nonempty:
  "nonneg_preserving rnd \<Longrightarrow> xs \<noteq> [] \<Longrightarrow> axis_features rnd xs = Inr (six_stats rnd xs)"
  by (simp add: axis_features_def np_min_def np_max_def np_sub_def six_stats_def
      np_mean_nonempty np_std_nonempty np_rms_nonempty)

lemma axis_features_empty: "axis_features rnd [] = Inl ZeroSizeReduction"
  by (simp add: axis_features_def np_min_def)






lemma exact_nonneg_preserving: "nonneg_preserving exact"
  by (simp add: nonneg_preserving_def exact_def)

section \<open>Properties of binary64 rounding\<close>

lemma round_half_even_nonneg: "0 \<le> x \<Longrightarrow> 0 \<le> round_half_even x"
  by (simp add: round_half_even_def Let_def)

lemma fl64_nonneg_preserving: "nonneg_preserving fl64"
  unfolding nonneg_preserving_def
proof (intro allI impI)
  fix x :: real assume "0 \<le> x"
  show "0 \<le> fl64 x"
  proof (cases "x = 0")
    case True
    then show ?thesis by (simp add: fl64_def)
  next
    case False
    have "0 \<le> x / 2 powi (\<lfloor>log 2 \<bar>x\<bar>\<rfloor> - 52)"
      using \<open>0 \<le> x\<close> by simp
    then have "0 \<le> round_half_even (x / 2 powi (\<lfloor>log 2 \<bar>x\<bar>\<rfloor> - 52))"
      by (rule round_half_even_nonneg)
    then show ?thesis using False by (simp add: fl64_def Let_def)
  qed
qed


lemma round_half_even_of_int: "round_half_even (of_int n) = n"
  by (simp add: round_half_even_def)

lemma floor_log2_bounds:
  assumes "x \<noteq> 0"
  shows "2 powi \<lfloor>log 2 \<bar>x\<bar>\<rfloor> \<le> \<bar>x\<bar>" and "\<bar>x\<bar> < 2 powi (\<lfloor>log 2 \<bar>x\<bar>\<rfloor> + 1)"
proof -
  have pw: "(2::real) powr (of_int j) = 2 powi j" for j
    by (simp add: powr_real_of_int')
  from assms have pos: "0 < \<bar>x\<bar>" by simp
  have "of_int \<lfloor>log 2 \<bar>x\<bar>\<rfloor> \<le> log 2 \<bar>x\<bar>" by simp
  with pos show "2 powi \<lfloor>log 2 \<bar>x\<bar>\<rfloor> \<le> \<bar>x\<bar>"
    by (simp only: le_log_iff [of 2, OF _ pos] pw)
  have "log 2 \<bar>x\<bar> < of_int (\<lfloor>log 2 \<bar>x\<bar>\<rfloor> + 1)" by simp
  with pos show "\<bar>x\<bar> < 2 powi (\<lfloor>log 2 \<bar>x\<bar>\<rfloor> + 1)"
    by (simp only: log_less_iff [of 2, OF _ pos] pw)
qed

lemma fl64_representable:
  assumes "\<bar>m\<bar> < 2 ^ 53"
  shows "fl64 (of_int m * 2 powi j) = of_int m * 2 powi j"
proof (cases "m = 0")
  case True
  then show ?thesis by (simp add: fl64_def)
next
  case False
  define x :: real where "x = of_int m * 2 powi j"
  define k where "k = \<lfloor>log 2 \<bar>x\<bar>\<rfloor>"
  from False have nz: "x \<noteq> 0" by (simp add: x_def)
  have absx: "\<bar>x\<bar> = of_int \<bar>m\<bar> * 2 powi j"
    by (simp add: x_def abs_mult)
  from assms have "(of_int \<bar>m\<bar> :: real) < 2 ^ 53"
    by (metis of_int_less_numeral_power_cancel_iff)
  then have "\<bar>x\<bar> < 2 ^ 53 * 2 powi j"
    by (simp add: absx)
  also have "\<dots> = 2 powi (53 + j)"
    by (simp add: power_int_add)
  finally have "\<bar>x\<bar> < 2 powi (53 + j)" .
  with floor_log2_bounds(1) [OF nz] have "(2::real) powi k < 2 powi (53 + j)"
    by (simp add: k_def)
  then have "k < 53 + j"
    using power_int_increasing [of "53 + j" k "2::real"] by (cases "k < 53 + j") simp_all
  then have e: "0 \<le> j - (k - 52)" by simp
  have "x / 2 powi (k - 52) = of_int m * 2 powi (j - (k - 52))"
    by (simp add: x_def power_int_diff)
  also have "\<dots> = of_int (m * 2 ^ nat (j - (k - 52)))"
    using e by (simp add: power_int_def)
  finally have q: "x / 2 powi (k - 52) = of_int (m * 2 ^ nat (j - (k - 52)))" .
  have "fl64 x = of_int (round_half_even (x / 2 powi (k - 52))) * 2 powi (k - 52)"
    using nz by (simp add: fl64_def Let_def k_def)
  also have "\<dots> = x / 2 powi (k - 52) * 2 powi (k - 52)"
    by (simp only: q round_half_even_of_int)
  also have "\<dots> = x" by simp
  finally show ?thesis by (simp add: x_def)
qed





lemma fl64_values:
  "fl64 1 = 1" "fl64 3 = 3" "fl64 4 = 4" "fl64 5 = 5" "fl64 6 = 6" "fl64 9 = 9"
  "fl64 10 = 10" "fl64 14 = 14" "fl64 16 = 16" "fl64 30 = 30"
  "fl64 (1 / 2) = 1 / 2" "fl64 (3 / 2) = 3 / 2" "fl64 (5 / 2) = 5 / 2"
  "fl64 (15 / 2) = 15 / 2" "fl64 (- (1 / 2)) = - (1 / 2)" "fl64 (- (3 / 2)) = - (3 / 2)"
  "fl64 (1 / 4) = 1 / 4" "fl64 (5 / 4) = 5 / 4" "fl64 (9 / 4) = 9 / 4"
  "fl64 (11 / 4) = 11 / 4"
  using fl64_representable [of 1 0] fl64_representable [of 3 0] fl64_representable [of 4 0]
    fl64_representable [of 5 0] fl64_representable [of 6 0] fl64_representable [of 9 0]
    fl64_representable [of 10 0] fl64_representable [of 14 0] fl64_representable [of 16 0]
    fl64_representable [of 30 0]
    fl64_representable [of 1 "- 1"] fl64_representable [of 3 "- 1"]
    fl64_representable [of 5 "- 1"] fl64_representable [of 15 "- 1"]
    fl64_representable [of "- 1" "- 1"] fl64_representable [of "- 3" "- 1"]
    fl64_representable [of 1 "- 2"] fl64_representable [of 5 "- 2"]
    fl64_representable [of 9 "- 2"] fl64_representable [of 11 "- 2"]
  by (simp_all add: field_simps)

subsection \<open>The mean of three times 0.1\<close>









lemma extract_loop_first_error:
  "axis_features rnd (column w i) = Inl e \<Longrightarrow> extract_loop rnd w (i # is) acc = Inl e"
  by simp

lemma column_empty: "well_shaped w \<Longrightarrow> shape0 w = 0 \<Longrightarrow> column w i = []"
  by (simp add: column_def well_shaped_def)

text \<open>
  Claim C4. A window without time steps (and with at least one axis) makes the extractor
  fail: the mean and the standard deviation of the empty axis are NaN, but \<open>np.min\<close>
  raises before anything is returned, so no vector of NaN leaves the function.
\<close>

theorem extract_features_empty_window:
  assumes "well_shaped w" and "shape0 w = 0" and "1 \<le> shape1 w"
  shows "extract_features_from_sequence rnd w = Inl ZeroSizeReduction"
proof -
  from assms(3) have "[0..<shape1 w] = 0 # [1..<shape1 w]"
    by (simp add: upt_conv_Cons)
  then show ?thesis
    unfolding extract_features_from_sequence_def
    by (simp add: column_empty [OF assms(1,2)] axis_features_empty)
qed

theorem extract_features_empty_window_witness:
  "well_shaped \<lparr>shape0 = 0, shape1 = 3, rows = []\<rparr>
   \<and> shape0 \<lparr>shape0 = 0, shape1 = 3, rows = []\<rparr> = 0
   \<and> 1 \<le> shape1 \<lparr>shape0 = 0, shape1 = 3, rows = []\<rparr>
   \<and> extract_features_from_sequence exact \<lparr>shape0 = 0, shape1 = 3, rows = []\<rparr>
       = Inl ZeroSizeReduction"
proof -
  have h1: "well_shaped \<lparr>shape0 = 0, shape1 = 3, rows = []\<rparr>"
    by (simp add: well_shaped_def)
  have h2: "shape0 \<lparr>shape0 = 0, shape1 = 3, rows = []\<rparr> = 0" by simp
  have h3: "1 \<le> shape1 \<lparr>shape0 = 0, shape1 = 3, rows = []\<rparr>" by simp
  show ?thesis
    using h1 h2 h3 extract_features_empty_window [OF h1 h2 h3, of exact] by simp
qed

lemma foldl_exact_sum: "foldl (\<lambda>s x. exact (s + x)) s xs = s + sum_list xs"
  by (induction xs arbitrary: s) (simp_all add: exact_def)

lemma np_sum_exact: "np_sum exact xs = sum_list xs"
  by (simp add: np_sum_def foldl_exact_sum)

lemma stat_mean_exact: "stat_mean exact xs = sum_list xs / real (length xs)"
  by (simp add: stat_mean_def np_sum_exact exact_def)

lemma stat_std_exact:
  "stat_std exact xs
     = sqrt ((\<Sum>x\<leftarrow>xs. (x - sum_list xs / real (length xs))\<^sup>2) / real (length xs))"
  by (simp add: stat_std_def stat_mean_exact np_sum_exact np_square_def exact_def
      comp_def power2_eq_square)

lemma stat_rms_exact:
  "stat_rms exact xs = sqrt ((\<Sum>x\<leftarrow>xs. x\<^sup>2) / real (length xs))"
  by (simp add: stat_rms_def np_sum_exact np_square_def exact_def comp_def power2_eq_square)

lemma np_std_exact:
  "xs \<noteq> [] \<Longrightarrow> np_std exact xs
     = Fin (sqrt ((\<Sum>x\<leftarrow>xs. (x - sum_list xs / real (length xs))\<^sup>2) / real (length xs)))"
  by (simp add: np_std_nonempty [OF exact_nonneg_preserving] stat_std_exact)

lemma example_window_features:
  "extract_features_from_sequence exact \<lparr>shape0 = 4, shape1 = 1, rows = [[1], [2], [3], [4]]\<rparr>
     = Inr [Fin (5 / 2), Fin (sqrt (5 / 4)), Fin 1, Fin 4, Fin (sqrt (15 / 2)), Fin 3]"
proof -
  have ax: "axis_features exact [1, 2, 3, 4]
              = Inr [Fin (5 / 2), Fin (sqrt (5 / 4)), Fin 1, Fin 4, Fin (sqrt (15 / 2)), Fin 3]"
    by (simp add: axis_features_nonempty [OF exact_nonneg_preserving] six_stats_def
        stat_mean_exact stat_std_exact stat_rms_exact exact_def power2_eq_square)
  show ?thesis
    by (simp add: extract_features_from_sequence_def column_def ax)
qed

lemma example_window_features_fl64:
  "extract_features_from_sequence fl64 \<lparr>shape0 = 4, shape1 = 1, rows = [[1], [2], [3], [4]]\<rparr>
     = Inr [Fin (5 / 2), Fin (fl64 (sqrt (5 / 4))), Fin 1, Fin 4, Fin (fl64 (sqrt (15 / 2))),
            Fin 3]"
proof -
  have mean: "stat_mean fl64 [1, 2, 3, 4] = 5 / 2"
    by (simp add: stat_mean_def np_sum_def fl64_values)
  have std: "stat_std fl64 [1, 2, 3, 4] = fl64 (sqrt (5 / 4))"
    by (simp add: stat_std_def mean np_sum_def np_square_def fl64_values)
  have rms: "stat_rms fl64 [1, 2, 3, 4] = fl64 (sqrt (15 / 2))"
    by (simp add: stat_rms_def np_sum_def np_square_def fl64_values)
  have ax: "axis_features fl64 [1, 2, 3, 4]
              = Inr [Fin (5 / 2), Fin (fl64 (sqrt (5 / 4))), Fin 1, Fin 4,
                     Fin (fl64 (sqrt (15 / 2))), Fin 3]"
    by (simp add: axis_features_nonempty [OF fl64_nonneg_preserving] six_stats_def
        mean std rms fl64_values)
  show ?thesis
    by (simp add: extract_features_from_sequence_def column_def ax)
qed

text \<open>
  Claim C2. The standard deviation is the population standard deviation: the squared
  deviations are divided by the number of time steps. For the window
  \<open>[[1],[2],[3],[4]]\<close> the extractor returns mean 2.5, std \<open>sqrt 1.25\<close>, min 1, max 4,
  rms \<open>sqrt 7.5\<close> and peak-to-peak 3, in exact arithmetic and, the two square roots
  rounded, in float64; dividing by \<open>time_steps - 1\<close> would give another standard
  deviation.
\<close>

theorem population_std:
  "(xs \<noteq> [] \<longrightarrow>
      np_std exact xs
        = Fin (sqrt ((\<Sum>x\<leftarrow>xs. (x - sum_list xs / real (length xs))\<^sup>2) / real (length xs))))
   \<and> extract_features_from_sequence exact \<lparr>shape0 = 4, shape1 = 1, rows = [[1], [2], [3], [4]]\<rparr>
       = Inr [Fin (5 / 2), Fin (sqrt (5 / 4)), Fin 1, Fin 4, Fin (sqrt (15 / 2)), Fin 3]
   \<and> extract_features_from_sequence fl64 \<lparr>shape0 = 4, shape1 = 1, rows = [[1], [2], [3], [4]]\<rparr>
       = Inr [Fin (5 / 2), Fin (fl64 (sqrt (5 / 4))), Fin 1, Fin 4, Fin (fl64 (sqrt (15 / 2))),
              Fin 3]
   \<and> sqrt (5 / 4) \<noteq> sqrt ((\<Sum>x\<leftarrow>[1, 2, 3, 4]. (x - 5 / 2)\<^sup>2) / (4 - 1))"
proof -
  have "sqrt (5 / 4) \<noteq> sqrt ((\<Sum>x\<leftarrow>[1, 2, 3, 4 :: real]. (x - 5 / 2)\<^sup>2) / (4 - 1))"
    by (simp add: power2_eq_square)
  then show ?thesis
    using np_std_exact [of xs] example_window_features example_window_features_fl64 by simp
qed

theorem population_std_witness:
  "[1, 2, 3, 4 :: real] \<noteq> []
   \<and> np_std exact [1, 2, 3, 4] = Fin (sqrt (5 / 4))"
proof -
  have h: "[1, 2, 3, 4 :: real] \<noteq> []" by simp
  have "np_std exact [1, 2, 3, 4]
          = Fin (sqrt ((\<Sum>x\<leftarrow>[1, 2, 3, 4]. (x - sum_list [1, 2, 3, 4] / real (length [1, 2, 3, 4 :: real]))\<^sup>2)
                        / real (length [1, 2, 3, 4 :: real])))"
    using population_std [of "[1, 2, 3, 4]"] h by blast
  then show ?thesis by (simp add: power2_eq_square)
qed

section \<open>Relations between the statistics\<close>












section \<open>Properties of the dataset loader\<close>

lemma condition_mapping_range:
  "map_of condition_mapping c = Some l \<Longrightarrow> l \<in> {0, 1, 2, 3}"
  by (auto simp: condition_mapping_def split: if_splits)

lemma load_files_invariant:
  "load_files rnd fs label Xs ys = Inr (Xs', ys') \<Longrightarrow> length Xs = length ys
     \<Longrightarrow> length Xs' = length ys' \<and> set ys' \<subseteq> set ys \<union> {label}"
proof (induction fs arbitrary: Xs ys)
  case Nil
  then show ?case by auto
next
  case (Cons p fs)
  obtain name f where p: "p = (name, f)" by (cases p)
  from Cons.prems(1) obtain df sq feats where
    rest: "load_files rnd fs label (Xs @ [feats]) (ys @ [label]) = Inr (Xs', ys')"
    by (auto simp: p split: sum.splits)
  from Cons.IH [OF rest] Cons.prems(2) show ?case by auto
qed

lemma load_dirs_invariant:
  "load_dirs rnd ds Xs ys out = Inr (Xs', ys', out') \<Longrightarrow> length Xs = length ys
     \<Longrightarrow> set ys \<subseteq> {0, 1, 2, 3}
     \<Longrightarrow> length Xs' = length ys' \<and> set ys' \<subseteq> {0, 1, 2, 3}"
proof (induction ds arbitrary: Xs ys out)
  case Nil
  then show ?case by auto
next
  case (Cons d ds)
  obtain c files where d: "d = (c, files)" by (cases d)
  show ?case
  proof (cases "map_of condition_mapping c")
    case None
    with Cons.prems(1) have "load_dirs rnd ds Xs ys (out @ [WarnUnknown c]) = Inr (Xs', ys', out')"
      by (simp add: d)
    from Cons.IH [OF this Cons.prems(2,3)] show ?thesis .
  next
    case (Some label)
    from Cons.prems(1) Some obtain X1 y1 where
      files: "load_files rnd (sort_key fst (filter (\<lambda>p. csv_name (fst p)) files)) label Xs ys
                = Inr (X1, y1)"
      and rest: "load_dirs rnd ds X1 y1
                   (out @ [Extracted (length (sort_key fst (filter (\<lambda>p. csv_name (fst p)) files))) c])
                   = Inr (Xs', ys', out')"
      by (auto simp: d Let_def split: sum.splits)
    from load_files_invariant [OF files Cons.prems(2)]
    have len: "length X1 = length y1" and sub: "set y1 \<subseteq> set ys \<union> {label}" by auto
    from condition_mapping_range [OF Some] sub Cons.prems(3)
    have "set y1 \<subseteq> {0, 1, 2, 3}" by auto
    from Cons.IH [OF rest len this] show ?thesis .
  qed
qed

lemma sort_key_fst_unique:
  assumes "distinct (map fst xs)" and "distinct (map fst ys)" and "set xs = set ys"
  shows "sort_key fst xs = sort_key fst ys"
proof -
  from assms have inj: "inj_on fst (set (sort_key fst xs) \<union> set (sort_key fst ys))"
    by (simp add: distinct_map)
  have "map fst (sort_key fst xs) = map fst (sort_key fst ys)"
  proof (rule sorted_distinct_set_unique)
    show "sorted (map fst (sort_key fst xs))" and "sorted (map fst (sort_key fst ys))"
      by simp_all
    from assms(1) show "distinct (map fst (sort_key fst xs))"
      by (simp add: distinct_map)
    from assms(2) show "distinct (map fst (sort_key fst ys))"
      by (simp add: distinct_map)
    from assms(3) show "set (map fst (sort_key fst xs)) = set (map fst (sort_key fst ys))"
      by simp
  qed
  from map_inj_on [OF this inj] show ?thesis .
qed

lemma same_listing_sorted_csv_files:
  assumes "same_listing f1 f2"
  shows "sorted_csv_files f1 = sorted_csv_files f2"
  unfolding sorted_csv_files_def
proof (rule sort_key_fst_unique)
  from assms show "distinct (map fst (filter (\<lambda>p. csv_name (fst p)) f1))"
    by (simp add: same_listing_def distinct_map_filter)
  from assms show "distinct (map fst (filter (\<lambda>p. csv_name (fst p)) f2))"
    by (simp add: same_listing_def distinct_map_filter)
  from assms show "set (filter (\<lambda>p. csv_name (fst p)) f1) = set (filter (\<lambda>p. csv_name (fst p)) f2)"
    by (simp add: same_listing_def)
qed

lemma insort_key_map_commute:
  "(\<And>x. f (g x) = h x) \<Longrightarrow> insort_key f (g a) (map g ys) = map g (insort_key h a ys)"
  by (induction ys) auto

lemma sort_key_map_commute:
  "(\<And>x. f (g x) = h x) \<Longrightarrow> sort_key f (map g xs) = map g (sort_key h xs)"
  by (induction xs) (auto simp: insort_key_map_commute)

lemma sort_key_canon: "sort_key fst (map canon ds) = map canon (sort_key fst ds)"
  by (rule sort_key_map_commute) (simp add: canon_def)

lemma load_dirs_canon:
  "map canon ds1 = map canon ds2
     \<Longrightarrow> load_dirs rnd ds1 Xs ys out = load_dirs rnd ds2 Xs ys out"
proof (induction ds1 arbitrary: ds2 Xs ys out)
  case Nil
  then show ?case by simp
next
  case (Cons d ds1)
  then obtain d' ds2' where ds2: "ds2 = d' # ds2'" and d: "canon d = canon d'"
    and rest: "map canon ds1 = map canon ds2'"
    by (cases ds2) auto
  obtain c f1 where d1: "d = (c, f1)" by (cases d)
  obtain c' f2 where d2: "d' = (c', f2)" by (cases d')
  from d d1 d2 have c: "c' = c" and f: "sorted_csv_files f1 = sorted_csv_files f2"
    by (auto simp: canon_def)
  from f have files: "sort_key fst (filter (\<lambda>p. csv_name (fst p)) f1)
                      = sort_key fst (filter (\<lambda>p. csv_name (fst p)) f2)"
    by (simp add: sorted_csv_files_def)
  show ?case
  proof (cases "map_of condition_mapping c")
    case None
    then show ?thesis by (simp add: ds2 d1 d2 c Cons.IH [OF rest])
  next
    case (Some label)
    then show ?thesis
      by (simp add: ds2 d1 d2 c files Let_def Cons.IH [OF rest] del: sort_key_simps
          split: sum.splits)
  qed
qed

lemma subdirs_set: "(n, fs) \<in> set (subdirs l) \<longleftrightarrow> (n, Subdir fs) \<in> set l"
  by (induction l rule: subdirs.induct) auto

lemma subdirs_distinct: "distinct (map fst l) \<Longrightarrow> distinct (map fst (subdirs l))"
proof (induction l rule: subdirs.induct)
  case (2 n fs rest)
  then show ?case by (force simp: subdirs_set)
qed auto

lemma same_tree_canon_subset:
  assumes "same_tree l1 l2"
  shows "set (map canon (subdirs l1)) \<subseteq> set (map canon (subdirs l2))"
proof
  fix d assume "d \<in> set (map canon (subdirs l1))"
  then obtain n f1 where d: "d = canon (n, f1)" and in1: "(n, Subdir f1) \<in> set l1"
    by (auto simp: subdirs_set)
  from in1 have "n \<in> fst ` set l1" by force
  with assms have "n \<in> fst ` set l2" by (simp add: same_tree_def)
  then obtain e2 where in2: "(n, e2) \<in> set l2" by auto
  from assms in1 in2 have "same_entry (Subdir f1) e2"
    by (fastforce simp: same_tree_def list_all_iff)
  then obtain f2 where e2: "e2 = Subdir f2" and sl: "same_listing f1 f2"
    by (cases e2) auto
  from same_listing_sorted_csv_files [OF sl] have "canon (n, f1) = canon (n, f2)"
    by (simp add: canon_def)
  moreover from in2 e2 have "(n, f2) \<in> set (subdirs l2)" by (simp add: subdirs_set)
  ultimately show "d \<in> set (map canon (subdirs l2))" using d by force
qed

lemma same_entry_sym: "same_entry e1 e2 \<Longrightarrow> same_entry e2 e1"
  by (cases e1; cases e2) (auto simp: same_listing_def)

lemma same_tree_sym: "same_tree l1 l2 \<Longrightarrow> same_tree l2 l1"
  unfolding same_tree_def list_all_iff using same_entry_sym by fastforce

lemma same_tree_sorted_dirs:
  assumes "same_tree l1 l2"
  shows "map canon (sort_key fst (subdirs l1)) = map canon (sort_key fst (subdirs l2))"
proof -
  have fst_canon: "map fst (map canon ds) = map fst ds" for ds
    by (simp add: canon_def comp_def)
  from assms have d1: "distinct (map fst (map canon (subdirs l1)))"
    and d2: "distinct (map fst (map canon (subdirs l2)))"
    by (simp_all only: fst_canon) (simp_all add: same_tree_def subdirs_distinct)
  from same_tree_canon_subset [OF assms] same_tree_canon_subset [OF same_tree_sym [OF assms]]
  have "set (map canon (subdirs l1)) = set (map canon (subdirs l2))" by blast
  from sort_key_fst_unique [OF d1 d2 this] show ?thesis
    by (simp only: sort_key_canon)
qed

lemma same_tree_no_subdirs:
  assumes "same_tree l1 l2"
  shows "subdirs l1 = [] \<longleftrightarrow> subdirs l2 = []"
proof -
  from same_tree_sorted_dirs [OF assms]
  have "length (sort_key fst (subdirs l1)) = length (sort_key fst (subdirs l2))"
    by (metis length_map)
  then have "length (subdirs l1) = length (subdirs l2)" by simp
  then show ?thesis by (metis length_0_conv)
qed

lemma loader_relisting:
  assumes "same_tree l1 l2"
  shows "load_csv_data_with_features rnd (Directory l1)
           = load_csv_data_with_features rnd (Directory l2)"
  using same_tree_no_subdirs [OF assms]
    load_dirs_canon [OF same_tree_sorted_dirs [OF assms], of rnd "[]" "[]" "[]"]
  by (simp add: load_csv_data_with_features_def Let_def)

lemma load_files_closed:
  "load_files rnd fs label Xs ys = Inr (Xs', ys')
     \<Longrightarrow> ys' = ys @ map (\<lambda>p. label) fs
       \<and> map Inr Xs' = map Inr Xs @ map (\<lambda>p. file_features rnd (snd p)) fs"
proof (induction fs arbitrary: Xs ys)
  case Nil
  then show ?case by auto
next
  case (Cons p fs)
  obtain name f where p: "p = (name, f)" by (cases p)
  from Cons.prems obtain feats where
    feats: "file_features rnd f = Inr feats"
    and rest: "load_files rnd fs label (Xs @ [feats]) (ys @ [label]) = Inr (Xs', ys')"
    by (auto simp: p file_features_def split: sum.splits)
  from Cons.IH [OF rest] feats show ?case by (simp add: p)
qed

lemma load_dirs_closed:
  "load_dirs rnd ds Xs ys out = Inr (Xs', ys', out')
     \<Longrightarrow> ys' = ys @ map class_label (concat (map visits_of_dir ds))
       \<and> map Inr Xs' = map Inr Xs
             @ map (\<lambda>v. file_features rnd (content v)) (concat (map visits_of_dir ds))"
proof (induction ds arbitrary: Xs ys out)
  case Nil
  then show ?case by auto
next
  case (Cons d ds)
  obtain c files where d: "d = (c, files)" by (cases d)
  show ?case
  proof (cases "map_of condition_mapping c")
    case None
    with Cons.prems have "load_dirs rnd ds Xs ys (out @ [WarnUnknown c]) = Inr (Xs', ys', out')"
      by (simp add: d)
    from Cons.IH [OF this] None show ?thesis by (simp add: d visits_of_dir_def)
  next
    case (Some label)
    from Cons.prems Some obtain X1 y1 where
      files: "load_files rnd (sorted_csv_files files) label Xs ys = Inr (X1, y1)"
      and rest: "load_dirs rnd ds X1 y1
                   (out @ [Extracted (length (sorted_csv_files files)) c]) = Inr (Xs', ys', out')"
      by (auto simp: d Let_def sorted_csv_files_def simp del: sort_key_simps split: sum.splits)
    from load_files_closed [OF files] Cons.IH [OF rest] Some show ?thesis
      by (simp add: d visits_of_dir_def comp_def)
  qed
qed

lemma loader_closed:
  assumes "load_csv_data_with_features rnd (Directory listing) = Inr r"
  shows "y r = map class_label (visited listing)
         \<and> map Inr (X r) = map (\<lambda>v. file_features rnd (content v)) (visited listing)"
proof -
  from assms obtain Xs ys out where
    run: "load_dirs rnd (sort_key fst (subdirs listing)) [] [] [] = Inr (Xs, ys, out)"
    and r: "X r = Xs" "y r = ys"
    by (auto simp: load_csv_data_with_features_def Let_def split: if_splits sum.splits)
  from load_dirs_closed [OF run] r show ?thesis by (simp add: visited_def)
qed

lemma visits_of_dir_sorted: "sorted (map visit_key (visits_of_dir d))"
proof -
  have "sorted (map fst (sorted_csv_files (snd d)))"
    by (simp add: sorted_csv_files_def)
  then have "sorted (map (\<lambda>p. (fst d, fst p)) (sorted_csv_files (snd d)))"
    by (induction "sorted_csv_files (snd d)") (auto simp: sorted_wrt_map less_eq_prod_def)
  then show ?thesis
    by (simp add: visits_of_dir_def visit_key_def comp_def split: option.splits)
qed

lemma visits_of_dir_class: "v \<in> set (visits_of_dir d) \<Longrightarrow> class_dir v = fst d"
  by (auto simp: visits_of_dir_def split: option.splits)

lemma visits_sorted:
  "sorted (map fst ds) \<Longrightarrow> distinct (map fst ds)
     \<Longrightarrow> sorted (map visit_key (concat (map visits_of_dir ds)))"
proof (induction ds)
  case Nil
  then show ?case by simp
next
  case (Cons d ds)
  have "visit_key v \<le> visit_key v'"
    if "v \<in> set (visits_of_dir d)" and "d' \<in> set ds" and "v' \<in> set (visits_of_dir d')"
    for v v' d'
  proof -
    from Cons.prems that(2) have "fst d < fst d'" by (auto simp: order_less_le)
    with visits_of_dir_class [OF that(1)] visits_of_dir_class [OF that(3)]
    show ?thesis by (simp add: visit_key_def less_eq_prod_def)
  qed
  with Cons visits_of_dir_sorted [of d] show ?case
    by (auto simp: sorted_append)
qed

lemma distinct_map_sort_key: "distinct (map f (sort_key g xs)) = distinct (map f xs)"
  by (simp add: distinct_map)

lemma visited_sorted:
  "distinct (map fst listing) \<Longrightarrow> sorted (map visit_key (visited listing))"
  unfolding visited_def
  by (rule visits_sorted) (simp_all only: distinct_map_sort_key subdirs_distinct sorted_sort_key)

subsection \<open>The example tree\<close>

lemma file_features_a: "file_features exact (Csv frame_a) = Inr features_a"
  by (simp add: file_features_def read_csv_def select_values_def frame_a_def features_a_def
      extract_features_from_sequence_def upt_rec column_def axis_features_def np_mean_def
      np_std_def np_min_def np_max_def np_sqrt_def np_sub_def np_sum_def np_square_def exact_def)

lemma file_features_b: "file_features exact (Csv frame_b) = Inr features_b"
  by (simp add: file_features_def read_csv_def select_values_def frame_b_def features_b_def
      extract_features_from_sequence_def upt_rec column_def axis_features_def np_mean_def
      np_std_def np_min_def np_max_def np_sqrt_def np_sub_def np_sum_def np_square_def exact_def)

lemma load_files_step:
  "file_features rnd f = Inr feats
     \<Longrightarrow> load_files rnd ((name, f) # rest) label Xs ys
           = load_files rnd rest label (Xs @ [feats]) (ys @ [label])"
  by (auto simp: file_features_def split: sum.splits)

lemma condition_names_sorted:
  "sort (map fst condition_mapping) = [''bearing'', ''imbalance'', ''misalignment'', ''normal'']"
  by (simp add: condition_mapping_def)

lemma example_tree_sorted:
  "sort_key fst (subdirs example_tree)
     = [(''bearing'', [(''c.csv'', Csv frame_a)]),
        (''misalignment'', []),
        (''normal'', [(''b.csv'', Csv frame_b), (''notes.txt'', Unreadable),
                      (''a.csv'', Csv frame_a)]),
        (''unknown_condition'', [(''u.csv'', Csv frame_a)])]"
  by (simp add: example_tree_def)

lemma example_tree_loaded:
  "load_csv_data_with_features exact (Directory example_tree) = Inr example_loaded"
proof -
  have "load_dirs exact (sort_key fst (subdirs example_tree)) [] [] []
          = Inr (X example_loaded, y example_loaded, printed example_loaded)"
    unfolding example_tree_sorted
    by (simp add: condition_mapping_def csv_name_def example_loaded_def
        load_files_step [OF file_features_a] load_files_step [OF file_features_b]
        del: load_files.simps(2))
  moreover have "subdirs example_tree \<noteq> []"
    by (simp add: example_tree_def)
  ultimately show ?thesis
    by (simp add: load_csv_data_with_features_def Let_def condition_names_sorted
        example_loaded_def del: sort_key_simps)
qed

lemma example_trees_same: "same_tree example_tree example_tree_relisted"
  by (simp add: same_tree_def same_listing_def example_tree_def example_tree_relisted_def)
     (auto simp: frame_a_def frame_b_def)

lemma example_visited:
  "map visit_key (visited example_tree)
     = [(''bearing'', ''c.csv''), (''normal'', ''a.csv''), (''normal'', ''b.csv'')]"
  unfolding visited_def example_tree_sorted
  by (simp add: visits_of_dir_def condition_mapping_def sorted_csv_files_def csv_name_def
      visit_key_def)

text \<open>
  Claim C10. When the loader returns, the feature matrix and the label vector have the
  same number of rows and every label is one of 0, 1, 2, 3, the values of the fixed
  mapping normal = 0, bearing = 1, misalignment = 2, imbalance = 3.
\<close>

theorem loader_rows_and_labels:
  assumes "load_csv_data_with_features rnd directory = Inr r"
  shows "length (X r) = length (y r) \<and> (\<forall>l\<in>set (y r). l \<in> {0, 1, 2, 3})
         \<and> map_of condition_mapping ''normal'' = Some 0
         \<and> map_of condition_mapping ''bearing'' = Some 1
         \<and> map_of condition_mapping ''misalignment'' = Some 2
         \<and> map_of condition_mapping ''imbalance'' = Some 3"
proof -
  from assms obtain listing Xs ys out where
    run: "load_dirs rnd (sort_key fst (subdirs listing)) [] [] [] = Inr (Xs, ys, out)"
    and r: "X r = Xs" "y r = ys"
    by (auto simp: load_csv_data_with_features_def Let_def
        split: path_target.splits if_splits sum.splits)
  from load_dirs_invariant [OF run] r
  have "length (X r) = length (y r) \<and> (\<forall>l\<in>set (y r). l \<in> {0, 1, 2, 3})" by auto
  then show ?thesis by (simp add: condition_mapping_def)
qed

theorem loader_rows_and_labels_witness:
  "load_csv_data_with_features exact (Directory example_tree) = Inr example_loaded
   \<and> length (X example_loaded) = 3 \<and> length (y example_loaded) = 3
   \<and> set (y example_loaded) = {0, 1}"
  using loader_rows_and_labels [OF example_tree_loaded] example_tree_loaded
  by (auto simp: example_loaded_def)

text \<open>
  Claim C5, as the spec states it: a directory of a known class without csv files makes
  the loader raise. The loader does not: on the example tree, whose directory
  \<open>misalignment\<close> is empty, it returns the samples of the other classes and reports 0
  samples for \<open>misalignment\<close>.
\<close>

theorem loader_empty_class_counterexample:
  "load_csv_data_with_features exact (Directory example_tree)
     = Inr \<lparr>X = [features_a, features_a, features_b], y = [1, 0, 0],
            condition_names = [''bearing'', ''imbalance'', ''misalignment'', ''normal''],
            printed = [Extracted 1 ''bearing'', Extracted 0 ''misalignment'',
                       Extracted 2 ''normal'', WarnUnknown ''unknown_condition'']\<rparr>"
  using example_tree_loaded by (simp add: example_loaded_def)

text \<open>
  Claim C5, amended. The loader raises when the root path does not exist and when it
  has no subdirectory at all. A directory of a known class without csv files raises
  nothing: the loop goes on to the next directory with the samples collected so far,
  having reported 0 samples.
\<close>

theorem loader_errors:
  "load_csv_data_with_features rnd Missing = Inl DirectoryNotExist
   \<and> (subdirs listing = [] \<longrightarrow>
        load_csv_data_with_features rnd (Directory listing) = Inl NoConditionSubdirs)
   \<and> (map_of condition_mapping c = Some label \<and> filter (\<lambda>p. csv_name (fst p)) files = [] \<longrightarrow>
        load_dirs rnd ((c, files) # rest) Xs ys out
          = load_dirs rnd rest Xs ys (out @ [Extracted 0 c]))"
  by (simp add: load_csv_data_with_features_def)

theorem loader_errors_witness:
  "subdirs [(''README'', Other)] = []
   \<and> load_csv_data_with_features exact (Directory [(''README'', Other)]) = Inl NoConditionSubdirs
   \<and> map_of condition_mapping ''misalignment'' = Some 2
   \<and> filter (\<lambda>p. csv_name (fst p)) [(''notes.txt'', Unreadable)] = []
   \<and> load_dirs exact [(''misalignment'', [(''notes.txt'', Unreadable)])] [] [] []
       = Inr ([], [], [Extracted 0 ''misalignment''])"
  using loader_errors [of exact "[(''README'', Other)]" "''misalignment''" 2
      "[(''notes.txt'', Unreadable)]" "[]" "[]" "[]" "[]"]
  by (simp add: condition_mapping_def csv_name_def)

text \<open>
  Claim C9. The loader visits the class directories in the lexicographic order of their
  names and, in each, the csv files in the lexicographic order of theirs: the labels and
  the feature vectors it returns are those of the files of \<open>visited\<close>, in that order,
  which is sorted by directory name and then file name. The result therefore does not
  depend on the order in which the directories are enumerated.
\<close>

theorem loader_order_deterministic:
  assumes "same_tree l1 l2"
  shows "load_csv_data_with_features rnd (Directory l1)
           = load_csv_data_with_features rnd (Directory l2)
         \<and> sorted (map visit_key (visited l1))
         \<and> (\<forall>r. load_csv_data_with_features rnd (Directory l1) = Inr r \<longrightarrow>
               y r = map class_label (visited l1)
               \<and> map Inr (X r) = map (\<lambda>v. file_features rnd (content v)) (visited l1))"
proof -
  from assms have "distinct (map fst l1)" by (simp add: same_tree_def)
  then have "sorted (map visit_key (visited l1))" by (rule visited_sorted)
  with loader_relisting [OF assms] loader_closed show ?thesis by blast
qed

theorem loader_order_deterministic_witness:
  "same_tree example_tree example_tree_relisted
   \<and> load_csv_data_with_features exact (Directory example_tree) = Inr example_loaded
   \<and> load_csv_data_with_features exact (Directory example_tree_relisted) = Inr example_loaded
   \<and> y example_loaded = map class_label (visited example_tree)
   \<and> map visit_key (visited example_tree)
       = [(''bearing'', ''c.csv''), (''normal'', ''a.csv''), (''normal'', ''b.csv'')]"
  using loader_order_deterministic [OF example_trees_same, of exact]
    example_trees_same example_tree_loaded example_visited
  by simp

section \<open>Properties of the signal synthesis\<close>



lemma np_random_normal_negative:
  "scale < 0 \<Longrightarrow> np_random_normal gen rnd loc scale n g = Inl ScaleNegative"
  by (simp add: np_random_normal_def)







text \<open>
  The temperature channel of chapter01.py, drawn right after \<open>np.random.seed(42)\<close>, is
  the instance of \<open>synthesize\<close> with base 50, amplitude 0.5, angular rate 1 and noise
  level 0.2.
\<close>

lemma temperature_as_synthesize:
  "temperature gen exact time (seed_fn gen 42)
     = synthesize gen exact time
         \<lparr>base = 50, amplitude = 1 / 2, angular_rate = 1, noise_std = 2 / 10, seed = 42\<rparr> g"
  by (simp add: temperature_def synthesize_def add_noise_def np_random_seed_def
      np_random_normal_def sinusoid_def exact_def zip_map1 zip_map2 split_def comp_def
      split: prod.splits)



text \<open>
  Claim C7. The vector that \<open>synthesize\<close> returns (or the error it raises) is a function
  of the configuration and the timestamps alone: it is the same from every state of the
  global generator, so the same in every repetition of the call.
\<close>

theorem synthesize_deterministic:
  "returned (synthesize gen rnd ts sp g) = returned (synthesize gen rnd ts sp g')"
  by (simp add: synthesize_def add_noise_def returned_def split: sum.splits)

text \<open>
  Without a seed \<open>add_noise\<close> draws from the generator as it stands, and the result does
  depend on the state.
\<close>

lemma add_noise_unseeded_depends_on_state:
  "returned (add_noise \<lparr>seed_fn = \<lambda>s. s, gauss_fn = \<lambda>g. (real_of_int g, g + 1)\<rparr> exact
               [0] 1 None 1)
   \<noteq> returned (add_noise \<lparr>seed_fn = \<lambda>s. s, gauss_fn = \<lambda>g. (real_of_int g, g + 1)\<rparr> exact
               [0] 1 None 2)"
  by (simp add: add_noise_def np_random_normal_def returned_def exact_def
      numeral_eq_Suc)

text \<open>
  Claim C8. A negative \<open>noise_std\<close> makes \<open>synthesize\<close> fail: the value reaches
  \<open>np.random.normal\<close> as its scale, which raises ValueError for a negative scale
  before it draws. Nothing is returned, so nothing is clamped.
\<close>

theorem synthesize_negative_noise:
  assumes "noise_std sp < 0"
  shows "synthesize gen rnd ts sp g
           = Inl (if 0 \<le> seed sp \<and> seed sp < 2 ^ 32 then ScaleNegative else SeedOutOfRange)
         \<and> add_noise gen rnd signal (noise_std sp) None g = Inl ScaleNegative"
  using assms
  by (simp add: synthesize_def add_noise_def np_random_seed_def np_random_normal_negative)

theorem synthesize_negative_noise_witness:
  "noise_std \<lparr>base = 50, amplitude = 1 / 2, angular_rate = 1, noise_std = - (1 / 5), seed = 42\<rparr> < 0
   \<and> synthesize \<lparr>seed_fn = \<lambda>s. s, gauss_fn = \<lambda>g. (real_of_int g, g + 1)\<rparr> exact [0, 1 / 10]
        \<lparr>base = 50, amplitude = 1 / 2, angular_rate = 1, noise_std = - (1 / 5), seed = 42\<rparr> 7
       = Inl ScaleNegative"
  using synthesize_negative_noise
    [of "\<lparr>base = 50, amplitude = 1 / 2, angular_rate = 1, noise_std = - (1 / 5), seed = 42\<rparr>"
        "\<lparr>seed_fn = \<lambda>s. s, gauss_fn = \<lambda>g. (real_of_int g, g + 1)\<rparr>" exact "[0, 1 / 10]" 7]
  by simp

end
